theory Spec2Isabelle
  imports Complex_Main "HOL-Library.AList" "HOL-Library.Multiset" "HOL-Library.List_Lexorder"
begin

section \<open>Python values, rows and data frames\<close>

text \<open>
  The program is \<^verbatim>\<open>src/app.py\<close>: \<^verbatim>\<open>generate_schema_definition\<close> and
  \<^verbatim>\<open>execute_query\<close>. Both read a pandas data frame that was built from the list
  of dictionaries \<^verbatim>\<open>worksheet.get_all_records()\<close> returns; the query is the
  dictionary \<^verbatim>\<open>json.loads\<close> returns for the JSON object of the translator.

  A table cell is a Python scalar, as \<^verbatim>\<open>to_dict('records')\<close> returns it. \<^verbatim>\<open>bool\<close> is a subclass of \<^verbatim>\<open>int\<close>, so a
  boolean is a number for \<^verbatim>\<open>isinstance\<close>, for \<^verbatim>\<open>==\<close> and for \<^verbatim>\<open><\<close>. A finite
  float is modelled by the rational number it denotes (comparisons of \<^verbatim>\<open>int\<close>
  with \<^verbatim>\<open>float\<close> are exact in Python); the float NaN, which pandas uses for a
  missing cell, is a value of its own; infinities are not modelled. Strings are
  the ASCII strings of HOL.
\<close>

datatype py_error = KeyError | TypeError | AttributeError | IndexError

datatype scalar = SNone | SBool bool | SInt int | SFloat rat | SNaN | SStr string

text \<open>A value of the parsed JSON query: a scalar, a list or a dictionary.\<close>

datatype pyval = Scalar scalar | PList "pyval list" | PDict "(string \<times> pyval) list"

type_synonym row = "(string \<times> scalar) list"

type_synonym query = "(string \<times> pyval) list"

text \<open>
  A data frame is its column index and its records. \<^verbatim>\<open>pd.DataFrame(data)\<close> gives
  every record all the columns (a key missing from a dictionary of \<^verbatim>\<open>data\<close>
  becomes NaN) and distinct column names; the functions below do not rely on it.
  \<^verbatim>\<open>dataframe.to_dict('records')\<close> is the field \<open>records\<close>.
\<close>

record dataframe =
  columns :: "string list"
  records :: "row list"

text \<open>\<^verbatim>\<open>isinstance(v, (int, float))\<close>: true of a boolean, and of NaN, too.\<close>

fun is_number :: "scalar \<Rightarrow> bool" where
  "is_number (SBool b) = True"
| "is_number (SInt i) = True"
| "is_number (SFloat r) = True"
| "is_number SNaN = True"
| "is_number SNone = False"
| "is_number (SStr s) = False"

text \<open>\<^verbatim>\<open>isinstance(v, bool)\<close> and \<^verbatim>\<open>isinstance(v, str)\<close>.\<close>

fun is_bool :: "scalar \<Rightarrow> bool" where
  "is_bool (SBool b) = True"
| "is_bool v = False"

fun is_str :: "scalar \<Rightarrow> bool" where
  "is_str (SStr s) = True"
| "is_str v = False"

text \<open>The numeric value of a number; NaN and the values that are no number have none.\<close>

fun num_val :: "scalar \<Rightarrow> rat option" where
  "num_val (SBool b) = Some (if b then 1 else 0)"
| "num_val (SInt i) = Some (of_int i)"
| "num_val (SFloat r) = Some r"
| "num_val v = None"

text \<open>Python's \<^verbatim>\<open>a < b\<close> on strings: lexicographic on the code points.\<close>

fun str_lt :: "string \<Rightarrow> string \<Rightarrow> bool" where
  "str_lt [] [] = False"
| "str_lt [] (y # ys) = True"
| "str_lt (x # xs) [] = False"
| "str_lt (x # xs) (y # ys) =
     ((of_char x :: nat) < of_char y \<or> (x = y \<and> str_lt xs ys))"

text \<open>
  Python's \<^verbatim>\<open>a < b\<close> on scalars. Two numbers compare by value, and every
  comparison with NaN is false; two strings compare lexicographically; every
  other pair (also \<^verbatim>\<open>None < None\<close>) raises \<^verbatim>\<open>TypeError\<close>.
\<close>

fun py_lt :: "scalar \<Rightarrow> scalar \<Rightarrow> py_error + bool" where
  "py_lt (SStr s) (SStr t) = Inr (str_lt s t)"
| "py_lt a b =
     (if is_number a \<and> is_number b then
        (case (num_val a, num_val b) of
           (Some x, Some y) \<Rightarrow> Inr (x < y)
         | _ \<Rightarrow> Inr False)
      else Inl TypeError)"

text \<open>Python's \<^verbatim>\<open>a == b\<close> on scalars; it never raises.\<close>

fun scalar_eq :: "scalar \<Rightarrow> scalar \<Rightarrow> bool" where
  "scalar_eq (SStr s) (SStr t) = (s = t)"
| "scalar_eq SNone SNone = True"
| "scalar_eq a b =
     (case (num_val a, num_val b) of
        (Some x, Some y) \<Rightarrow> x = y
      | _ \<Rightarrow> False)"

text \<open>\<^verbatim>\<open>cell == value\<close> for a cell and a value of the query: a scalar never equals
  a list or a dictionary.\<close>

fun py_eq :: "scalar \<Rightarrow> pyval \<Rightarrow> bool" where
  "py_eq c (Scalar s) = scalar_eq c s"
| "py_eq c v = False"

text \<open>\<^verbatim>\<open>cell > value\<close> and \<^verbatim>\<open>cell < value\<close> against a value of the query.\<close>

fun py_gt_val :: "scalar \<Rightarrow> pyval \<Rightarrow> py_error + bool" where
  "py_gt_val c (Scalar s) = py_lt s c"
| "py_gt_val c v = Inl TypeError"

fun py_lt_val :: "scalar \<Rightarrow> pyval \<Rightarrow> py_error + bool" where
  "py_lt_val c (Scalar s) = py_lt c s"
| "py_lt_val c v = Inl TypeError"

text \<open>Truthiness of a value, as \<^verbatim>\<open>if v\<close> and \<^verbatim>\<open>a and b\<close> test it.\<close>

fun truthy :: "pyval \<Rightarrow> bool" where
  "truthy (Scalar SNone) = False"
| "truthy (Scalar (SBool b)) = b"
| "truthy (Scalar (SInt i)) = (i \<noteq> 0)"
| "truthy (Scalar (SFloat r)) = (r \<noteq> 0)"
| "truthy (Scalar SNaN) = True"
| "truthy (Scalar (SStr s)) = (s \<noteq> [])"
| "truthy (PList vs) = (vs \<noteq> [])"
| "truthy (PDict kvs) = (kvs \<noteq> [])"

section \<open>String operations\<close>

text \<open>\<^verbatim>\<open>s.endswith(suf)\<close>.\<close>

definition endswith :: "string \<Rightarrow> string \<Rightarrow> bool" where
  "endswith s suf =
     (length suf \<le> length s \<and> drop (length s - length suf) s = suf)"

text \<open>\<^verbatim>\<open>s.replace(old, '')\<close>: every occurrence of \<open>old\<close> is deleted, scanning from
  the left; with an empty \<open>old\<close> the string comes back unchanged.\<close>

function py_remove :: "string \<Rightarrow> string \<Rightarrow> string" where
  "py_remove old [] = []"
| "py_remove old (c # cs) =
     (if old \<noteq> [] \<and> take (length old) (c # cs) = old
      then py_remove old (drop (length old) (c # cs))
      else c # py_remove old cs)"
  by pat_completeness auto
termination
  by (relation "measure (\<lambda>(old, s). length s)") (auto simp: neq_Nil_conv)

text \<open>\<^verbatim>\<open>s.lower()\<close> on ASCII strings.\<close>

definition lower_char :: "char \<Rightarrow> char" where
  "lower_char c =
     (let n = (of_char c :: nat) in if 65 \<le> n \<and> n \<le> 90 then char_of (n + 32) else c)"

definition py_lower :: "string \<Rightarrow> string" where
  "py_lower s = map lower_char s"

text \<open>\<^verbatim>\<open>a in b\<close> on two strings: \<open>a\<close> occurs in \<open>b\<close> as a block.\<close>

fun str_contains :: "string \<Rightarrow> string \<Rightarrow> bool" where
  "str_contains a [] = (a = [])"
| "str_contains a (c # cs) = (take (length a) (c # cs) = a \<or> str_contains a cs)"

text \<open>
  \<^verbatim>\<open>str(value)\<close>. The text of a string, of \<^verbatim>\<open>None\<close>, of a boolean and of NaN is
  fixed here; how Python prints an integer, a finite float, a list or a
  dictionary is taken as the parameter \<open>fmt\<close>: the program does not define it.
\<close>

fun py_str :: "(pyval \<Rightarrow> string) \<Rightarrow> pyval \<Rightarrow> string" where
  "py_str fmt (Scalar (SStr s)) = s"
| "py_str fmt (Scalar SNone) = ''None''"
| "py_str fmt (Scalar (SBool b)) = (if b then ''True'' else ''False'')"
| "py_str fmt (Scalar SNaN) = ''nan''"
| "py_str fmt v = fmt v"

text \<open>\<^verbatim>\<open>cell in value\<close>: membership in a list is by \<^verbatim>\<open>==\<close>, in a dictionary by key,
  in a string as a block (a cell that is no string raises there); a scalar that
  is no string is not iterable.\<close>

fun py_in :: "scalar \<Rightarrow> pyval \<Rightarrow> py_error + bool" where
  "py_in c (PList vs) = Inr (list_ex (py_eq c) vs)"
| "py_in c (PDict kvs) = Inr (case c of SStr s \<Rightarrow> s \<in> set (map fst kvs) | _ \<Rightarrow> False)"
| "py_in c (Scalar (SStr t)) = (case c of SStr s \<Rightarrow> Inr (str_contains s t) | _ \<Rightarrow> Inl TypeError)"
| "py_in c (Scalar s) = Inl TypeError"

section \<open>The WHERE step of \<^verbatim>\<open>execute_query\<close>\<close>

text \<open>
  One pass of the inner loop \<^verbatim>\<open>for key, value in structured_query["where"].items()\<close>
  on the row \<open>item\<close>: \<open>Inr True\<close> when the loop goes on with \<open>match\<close> still true,
  \<open>Inr False\<close> when it sets \<open>match = False\<close> and breaks, \<open>Inl e\<close> when the
  comparison raises. \<^verbatim>\<open>col in item and isinstance(...) and item[col] > value\<close>
  evaluates from the left and stops at the first false conjunct.
\<close>

definition key_matches :: "(pyval \<Rightarrow> string) \<Rightarrow> row \<Rightarrow> string \<times> pyval \<Rightarrow> py_error + bool" where
  "key_matches fmt item kv =
     (let key = fst kv; value = snd kv in
      if endswith key ''_gt'' then
        (let col = py_remove ''_gt'' key in
         case map_of item col of
           None \<Rightarrow> Inr False
         | Some c \<Rightarrow> if is_number c then py_gt_val c value else Inr False)
      else if endswith key ''_lt'' then
        (let col = py_remove ''_lt'' key in
         case map_of item col of
           None \<Rightarrow> Inr False
         | Some c \<Rightarrow> if is_number c then py_lt_val c value else Inr False)
      else if endswith key ''_contains'' then
        (let col = py_remove ''_contains'' key in
         case map_of item col of
           None \<Rightarrow> Inr False
         | Some c \<Rightarrow>
             (case c of
                SStr s \<Rightarrow> Inr (str_contains (py_lower (py_str fmt value)) (py_lower s))
              | _ \<Rightarrow> Inr False))
      else if endswith key ''_in'' then
        (let col = py_remove ''_in'' key in
         case map_of item col of
           None \<Rightarrow> Inr False
         | Some c \<Rightarrow> py_in c value)
      else if key = ''logical_operator'' then Inr True
      else
        (case map_of item key of
           None \<Rightarrow> Inr False
         | Some c \<Rightarrow> Inr (py_eq c value)))"

text \<open>The inner loop: the keys in the order of the dictionary, stopping at the
  first one that fails or raises.\<close>

fun row_matches :: "(pyval \<Rightarrow> string) \<Rightarrow> row \<Rightarrow> (string \<times> pyval) list \<Rightarrow> py_error + bool" where
  "row_matches fmt item [] = Inr True"
| "row_matches fmt item (kv # kvs) =
     (case key_matches fmt item kv of
        Inl e \<Rightarrow> Inl e
      | Inr m \<Rightarrow> if m then row_matches fmt item kvs else Inr False)"

text \<open>\<^verbatim>\<open>structured_query["where"].items()\<close>: a value that is no dictionary has no
  such method, and the call raises \<^verbatim>\<open>AttributeError\<close>.\<close>

fun dict_items :: "pyval \<Rightarrow> py_error + (string \<times> pyval) list" where
  "dict_items (PDict kvs) = Inr kvs"
| "dict_items v = Inl AttributeError"

text \<open>The outer loop \<^verbatim>\<open>for item in results\<close>, appending the rows that match. The
  items of the mapping are taken anew for every row, so nothing is raised when there
  is no row.\<close>

fun filter_rows :: "(pyval \<Rightarrow> string) \<Rightarrow> pyval \<Rightarrow> row list \<Rightarrow> py_error + row list" where
  "filter_rows fmt w [] = Inr []"
| "filter_rows fmt w (item # items) =
     (case dict_items w of
        Inl e \<Rightarrow> Inl e
      | Inr kvs \<Rightarrow>
          (case row_matches fmt item kvs of
             Inl e \<Rightarrow> Inl e
           | Inr m \<Rightarrow>
               (case filter_rows fmt w items of
                  Inl e \<Rightarrow> Inl e
                | Inr rest \<Rightarrow> Inr (if m then item # rest else rest))))"

text \<open>\<^verbatim>\<open>if "where" in structured_query and structured_query["where"]\<close>.\<close>

definition apply_where :: "(pyval \<Rightarrow> string) \<Rightarrow> query \<Rightarrow> row list \<Rightarrow> py_error + row list" where
  "apply_where fmt q results =
     (case map_of q ''where'' of
        None \<Rightarrow> Inr results
      | Some w \<Rightarrow> if \<not> truthy w then Inr results else filter_rows fmt w results)"

section \<open>The ORDER BY step\<close>

text \<open>
  \<^verbatim>\<open>results.sort(key=lambda x: x.get(column), reverse=...)\<close>. Python's sort is
  stable and compares keys with \<^verbatim>\<open><\<close> only, so a comparison that raises ends the
  sort with that exception. It is modelled by the stable insertion sort that
  puts each row in front of the sorted rows after it, behind the rows whose key
  is smaller. On keys that \<^verbatim>\<open><\<close> orders totally (numbers without NaN, or strings)
  every stable sort returns this list; where two keys are not comparable, every
  sort of two or more rows compares such a pair and raises, as this one does.
  With NaN among the keys no comparison raises, and the order CPython returns
  depends on its merge strategy: the model is not meant to predict it.
\<close>

fun py_insort :: "(row \<Rightarrow> scalar) \<Rightarrow> row \<Rightarrow> row list \<Rightarrow> py_error + row list" where
  "py_insort k x [] = Inr [x]"
| "py_insort k x (y # ys) =
     (case py_lt (k y) (k x) of
        Inl e \<Rightarrow> Inl e
      | Inr smaller \<Rightarrow>
          if smaller then (case py_insort k x ys of Inl e \<Rightarrow> Inl e | Inr zs \<Rightarrow> Inr (y # zs))
          else Inr (x # y # ys))"

fun py_isort :: "(row \<Rightarrow> scalar) \<Rightarrow> row list \<Rightarrow> py_error + row list" where
  "py_isort k [] = Inr []"
| "py_isort k (x # xs) =
     (case py_isort k xs of Inl e \<Rightarrow> Inl e | Inr ys \<Rightarrow> py_insort k x ys)"

text \<open>With \<^verbatim>\<open>reverse=True\<close> CPython reverses the list, sorts it and reverses the
  result, which keeps rows of equal keys in their input order.\<close>

definition py_sort :: "(row \<Rightarrow> scalar) \<Rightarrow> bool \<Rightarrow> row list \<Rightarrow> py_error + row list" where
  "py_sort k reverse xs =
     (if reverse then (case py_isort k (rev xs) of Inl e \<Rightarrow> Inl e | Inr ys \<Rightarrow> Inr (rev ys))
      else py_isort k xs)"

text \<open>\<^verbatim>\<open>x.get(column)\<close> for a column name: \<^verbatim>\<open>None\<close> when the row has no such key.\<close>

definition dict_get :: "string \<Rightarrow> row \<Rightarrow> scalar" where
  "dict_get c x = (case map_of x c of None \<Rightarrow> SNone | Some v \<Rightarrow> v)"

text \<open>\<^verbatim>\<open>obj[k]\<close> for a string \<open>k\<close>: \<^verbatim>\<open>KeyError\<close> on a dictionary without the key,
  \<^verbatim>\<open>TypeError\<close> on every value that is no dictionary.\<close>

fun subscript :: "pyval \<Rightarrow> string \<Rightarrow> py_error + pyval" where
  "subscript (PDict kvs) k = (case map_of kvs k of None \<Rightarrow> Inl KeyError | Some v \<Rightarrow> Inr v)"
| "subscript v k = Inl TypeError"

text \<open>\<^verbatim>\<open>column in dataframe.columns\<close>: the index hashes the key first, so a list or
  a dictionary raises \<^verbatim>\<open>TypeError\<close>; a scalar that is no string is none of the
  column names.\<close>

fun index_contains :: "string list \<Rightarrow> pyval \<Rightarrow> py_error + bool" where
  "index_contains cols (Scalar (SStr s)) = Inr (s \<in> set cols)"
| "index_contains cols (Scalar v) = Inr False"
| "index_contains cols v = Inl TypeError"

text \<open>The call \<^verbatim>\<open>st.warning(f"Warning: Cannot sort by non-existent column '{column}'.")\<close>,
  recorded with the value of \<open>column\<close>.\<close>

datatype warning = Cannot_sort pyval

text \<open>The step returns the rows and the warnings it emitted. Both fields of
  \<open>orderBy\<close> are read before the column is looked up.\<close>

definition apply_order_by :: "query \<Rightarrow> dataframe \<Rightarrow> row list \<Rightarrow> py_error + row list \<times> warning list" where
  "apply_order_by q df results =
     (case map_of q ''orderBy'' of
        None \<Rightarrow> Inr (results, [])
      | Some ob \<Rightarrow>
          if \<not> truthy ob then Inr (results, [])
          else
            (case subscript ob ''column'' of
               Inl e \<Rightarrow> Inl e
             | Inr column \<Rightarrow>
                 (case subscript ob ''direction'' of
                    Inl e \<Rightarrow> Inl e
                  | Inr direction \<Rightarrow>
                      (case index_contains (columns df) column of
                         Inl e \<Rightarrow> Inl e
                       | Inr found \<Rightarrow>
                           if found then
                             (case column of
                                Scalar (SStr c) \<Rightarrow>
                                  (case py_sort (dict_get c) (direction = Scalar (SStr ''DESC'')) results of
                                     Inl e \<Rightarrow> Inl e
                                   | Inr sorted_rows \<Rightarrow> Inr (sorted_rows, []))
                              | _ \<Rightarrow> Inr (results, []))
                           else Inr (results, [Cannot_sort column])))))"

section \<open>The SELECT step\<close>

text \<open>\<^verbatim>\<open>structured_query["columns"][0]\<close> on a truthy value: the first element of a
  list, the first character of a string; a dictionary has no key \<open>0\<close>, and a
  number cannot be subscripted.\<close>

fun first_elem :: "pyval \<Rightarrow> py_error + pyval" where
  "first_elem (PList (v # vs)) = Inr v"
| "first_elem (PList []) = Inl IndexError"
| "first_elem (Scalar (SStr (c # cs))) = Inr (Scalar (SStr [c]))"
| "first_elem (Scalar (SStr [])) = Inl IndexError"
| "first_elem (PDict kvs) = Inl KeyError"
| "first_elem (Scalar v) = Inl TypeError"

text \<open>\<^verbatim>\<open>for col in structured_query["columns"]\<close>: the elements of a list, the
  characters of a string, the keys of a dictionary.\<close>

fun iter_cols :: "pyval \<Rightarrow> py_error + pyval list" where
  "iter_cols (PList vs) = Inr vs"
| "iter_cols (Scalar (SStr s)) = Inr (map (\<lambda>c. Scalar (SStr [c])) s)"
| "iter_cols (PDict kvs) = Inr (map (\<lambda>kv. Scalar (SStr (fst kv))) kvs)"
| "iter_cols (Scalar v) = Inl TypeError"

text \<open>
  The inner loop that fills \<open>new_item\<close>. \<^verbatim>\<open>col in item\<close> is false for a scalar
  that is no string and raises \<^verbatim>\<open>TypeError\<close> for a list or a dictionary (not
  hashable). \<^verbatim>\<open>new_item[col] = item[col]\<close> appends the key, or overwrites it in
  place when it is there already.
\<close>

fun project_row :: "pyval list \<Rightarrow> row \<Rightarrow> row \<Rightarrow> py_error + row" where
  "project_row [] item new_item = Inr new_item"
| "project_row (col # cols) item new_item =
     (case col of
        Scalar (SStr s) \<Rightarrow>
          (case map_of item s of
             None \<Rightarrow> project_row cols item new_item
           | Some v \<Rightarrow> project_row cols item (AList.update s v new_item))
      | Scalar v \<Rightarrow> project_row cols item new_item
      | _ \<Rightarrow> Inl TypeError)"

fun project_rows :: "pyval \<Rightarrow> row list \<Rightarrow> py_error + row list" where
  "project_rows cs [] = Inr []"
| "project_rows cs (item # items) =
     (case iter_cols cs of
        Inl e \<Rightarrow> Inl e
      | Inr cols \<Rightarrow>
          (case project_row cols item [] of
             Inl e \<Rightarrow> Inl e
           | Inr new_item \<Rightarrow>
               (case project_rows cs items of
                  Inl e \<Rightarrow> Inl e
                | Inr rest \<Rightarrow> Inr (new_item # rest))))"

definition apply_select :: "query \<Rightarrow> row list \<Rightarrow> py_error + row list" where
  "apply_select q results =
     (case map_of q ''columns'' of
        None \<Rightarrow> Inr results
      | Some cs \<Rightarrow>
          if \<not> truthy cs then Inr results
          else
            (case first_elem cs of
               Inl e \<Rightarrow> Inl e
             | Inr c0 \<Rightarrow>
                 if c0 = Scalar (SStr ''*'') then Inr results
                 else project_rows cs results))"

section \<open>The LIMIT step\<close>

text \<open>The slice \<^verbatim>\<open>xs[:n]\<close>: a negative \<open>n\<close> counts from the end.\<close>

definition py_slice_to :: "int \<Rightarrow> 'a list \<Rightarrow> 'a list" where
  "py_slice_to n xs =
     (if n < 0 then take (length xs - nat (- n)) xs else take (nat n) xs)"

text \<open>\<^verbatim>\<open>if "limit" in structured_query and structured_query["limit"] is not None\<close>;
  a slice bound must be an integer (a boolean is one), every other value raises
  \<^verbatim>\<open>TypeError\<close>.\<close>

definition apply_limit :: "query \<Rightarrow> row list \<Rightarrow> py_error + row list" where
  "apply_limit q results =
     (case map_of q ''limit'' of
        None \<Rightarrow> Inr results
      | Some l \<Rightarrow>
          (case l of
             Scalar SNone \<Rightarrow> Inr results
           | Scalar (SInt n) \<Rightarrow> Inr (py_slice_to n results)
           | Scalar (SBool b) \<Rightarrow> Inr (py_slice_to (if b then 1 else 0) results)
           | _ \<Rightarrow> Inl TypeError))"

section \<open>\<^verbatim>\<open>execute_query\<close>\<close>

text \<open>The rows after WHERE, ORDER BY and SELECT, with the warnings so far: the
  sequence the LIMIT step cuts.\<close>

definition post_projection :: "(pyval \<Rightarrow> string) \<Rightarrow> query \<Rightarrow> dataframe \<Rightarrow> py_error + row list \<times> warning list" where
  "post_projection fmt q df =
     (case apply_where fmt q (records df) of
        Inl e \<Rightarrow> Inl e
      | Inr filtered \<Rightarrow>
          (case apply_order_by q df filtered of
             Inl e \<Rightarrow> Inl e
           | Inr (ordered, ws) \<Rightarrow>
               (case apply_select q ordered of
                  Inl e \<Rightarrow> Inl e
                | Inr projected \<Rightarrow> Inr (projected, ws))))"

definition execute_query :: "(pyval \<Rightarrow> string) \<Rightarrow> query \<Rightarrow> dataframe \<Rightarrow> py_error + row list \<times> warning list" where
  "execute_query fmt q df =
     (case post_projection fmt q df of
        Inl e \<Rightarrow> Inl e
      | Inr (projected, ws) \<Rightarrow>
          (case apply_limit q projected of
             Inl e \<Rightarrow> Inl e
           | Inr limited \<Rightarrow> Inr (limited, ws)))"

section \<open>\<^verbatim>\<open>generate_schema_definition\<close>\<close>

text \<open>\<^verbatim>\<open>dataframe.empty\<close>: no column or no record.\<close>

definition df_empty :: "dataframe \<Rightarrow> bool" where
  "df_empty df = (columns df = [] \<or> records df = [])"

text \<open>\<^verbatim>\<open>dataframe[col]\<close>: the cells of the column, NaN where a record has none.\<close>

definition get_column :: "dataframe \<Rightarrow> string \<Rightarrow> scalar list" where
  "get_column df col = map (\<lambda>item. case map_of item col of None \<Rightarrow> SNaN | Some v \<Rightarrow> v) (records df)"

text \<open>\<^verbatim>\<open>series.dropna()\<close> drops \<^verbatim>\<open>None\<close> and NaN.\<close>

definition dropna :: "scalar list \<Rightarrow> scalar list" where
  "dropna series = filter (\<lambda>v. v \<noteq> SNone \<and> v \<noteq> SNaN) series"

text \<open>
  The type pandas gives a column that \<^verbatim>\<open>pd.DataFrame(data)\<close> builds from Python
  values, read off the cells as \<^verbatim>\<open>to_dict('records')\<close> returns them: booleans only
  give \<^verbatim>\<open>bool\<close>; integers only give \<^verbatim>\<open>int64\<close> when all of them fit in 64 signed
  bits and \<^verbatim>\<open>uint64\<close> when all of them fit in 64 unsigned bits; floats only (NaN is
  one) give \<^verbatim>\<open>float64\<close>; every other column holds the Python objects themselves.
\<close>

datatype dtype = Bool_dtype | Int64 | UInt64 | Float64 | Object

fun in_int64 :: "scalar \<Rightarrow> bool" where
  "in_int64 (SInt i) = (- 9223372036854775808 \<le> i \<and> i \<le> 9223372036854775807)"
| "in_int64 v = False"

fun in_uint64 :: "scalar \<Rightarrow> bool" where
  "in_uint64 (SInt i) = (0 \<le> i \<and> i \<le> 18446744073709551615)"
| "in_uint64 v = False"

fun is_float :: "scalar \<Rightarrow> bool" where
  "is_float (SFloat r) = True"
| "is_float SNaN = True"
| "is_float v = False"

definition series_dtype :: "scalar list \<Rightarrow> dtype" where
  "series_dtype series =
     (if series = [] then Object
      else if list_all is_bool series then Bool_dtype
      else if list_all in_int64 series then Int64
      else if list_all in_uint64 series then UInt64
      else if list_all is_float series then Float64
      else Object)"

text \<open>
  \<^verbatim>\<open>isinstance(first_val, (int, float))\<close> and \<^verbatim>\<open>isinstance(first_val, bool)\<close> for the
  element \<^verbatim>\<open>.iloc[0]\<close> returns. From a \<^verbatim>\<open>float64\<close> column it is a
  \<^verbatim>\<open>numpy.float64\<close>, which is a Python \<^verbatim>\<open>float\<close>; from an \<^verbatim>\<open>int64\<close>, \<^verbatim>\<open>uint64\<close>
  or \<^verbatim>\<open>bool\<close> column it is a \<^verbatim>\<open>numpy.int64\<close>, \<^verbatim>\<open>numpy.uint64\<close> or
  \<^verbatim>\<open>numpy.bool_\<close>, none of which is a Python \<^verbatim>\<open>int\<close>, \<^verbatim>\<open>float\<close> or \<^verbatim>\<open>bool\<close>;
  from an object column it is the Python value.
\<close>

fun isinstance_int_float :: "dtype \<Rightarrow> scalar \<Rightarrow> bool" where
  "isinstance_int_float Object v = is_number v"
| "isinstance_int_float Float64 v = True"
| "isinstance_int_float d v = False"

fun isinstance_bool :: "dtype \<Rightarrow> scalar \<Rightarrow> bool" where
  "isinstance_bool Object v = is_bool v"
| "isinstance_bool d v = False"

text \<open>
  The body of the loop over the columns. \<^verbatim>\<open>.iloc[0]\<close> of an empty series raises
  \<^verbatim>\<open>IndexError\<close>. The test for \<^verbatim>\<open>(int, float)\<close> comes first, the test for
  \<^verbatim>\<open>bool\<close> in its \<^verbatim>\<open>elif\<close>.
\<close>

definition infer_col_type :: "scalar list \<Rightarrow> py_error + string" where
  "infer_col_type series =
     (if series \<noteq> [] then
        (case dropna series of
           [] \<Rightarrow> Inl IndexError
         | first_val # rest \<Rightarrow>
             Inr (if isinstance_int_float (series_dtype series) first_val then ''number''
                  else if isinstance_bool (series_dtype series) first_val then ''boolean''
                  else ''string''))
      else Inr ''string'')"

fun schema_parts :: "dataframe \<Rightarrow> string list \<Rightarrow> py_error + string list" where
  "schema_parts df [] = Inr []"
| "schema_parts df (col # cols) =
     (case infer_col_type (get_column df col) of
        Inl e \<Rightarrow> Inl e
      | Inr col_type \<Rightarrow>
          (case schema_parts df cols of
             Inl e \<Rightarrow> Inl e
           | Inr parts \<Rightarrow> Inr ((''- '' @ col @ '' ('' @ col_type @ '')'') # parts)))"

text \<open>\<^verbatim>\<open>"\n".join(parts)\<close>.\<close>

fun join_lines :: "string list \<Rightarrow> string" where
  "join_lines [] = []"
| "join_lines [p] = p"
| "join_lines (p # ps) = p @ [CHR 0x0A] @ join_lines ps"

definition generate_schema_definition :: "dataframe \<Rightarrow> py_error + string" where
  "generate_schema_definition df =
     (if df_empty df then Inr ''The database table is empty.''
      else
        (case schema_parts df (columns df) of
           Inl e \<Rightarrow> Inl e
         | Inr parts \<Rightarrow>
             Inr (''The database has one table called 'products' with the following schema:''
                  @ [CHR 0x0A] @ join_lines parts)))"

section \<open>The shape of a query\<close>

text \<open>
  These predicates follow the data model of the specification, not the program, which
  checks none of it. The first is the part of the shape that the comparisons of the
  WHERE step depend on: the operand of a \<open>_gt\<close> or \<open>_lt\<close> key is a number (for
  Python, a boolean is one), the operand of an \<open>_in\<close> key is a list.
\<close>

definition operand_ok :: "string \<times> pyval \<Rightarrow> bool" where
  "operand_ok kv =
     (let key = fst kv; value = snd kv in
      if endswith key ''_gt'' \<or> endswith key ''_lt'' then
        (case value of Scalar s \<Rightarrow> is_number s | _ \<Rightarrow> False)
      else if endswith key ''_contains'' then True
      else if endswith key ''_in'' then (case value of PList vs \<Rightarrow> True | _ \<Rightarrow> False)
      else True)"










section \<open>Projection on column names\<close>

text \<open>The names of a list in the order of their first occurrence.\<close>

fun first_occurrences :: "'a list \<Rightarrow> 'a list" where
  "first_occurrences [] = []"
| "first_occurrences (x # xs) = x # filter (\<lambda>y. y \<noteq> x) (first_occurrences xs)"

text \<open>The cells of a row for a list of column names, in the order of the list; a name
  the row does not have is left out.\<close>

fun requested_cells :: "string list \<Rightarrow> row \<Rightarrow> row" where
  "requested_cells [] item = []"
| "requested_cells (c # cs) item =
     (case map_of item c of
        None \<Rightarrow> requested_cells cs item
      | Some v \<Rightarrow> (c, v) # requested_cells cs item)"

section \<open>Example tables and queries\<close>

text \<open>A rendering for the examples, none of which prints a number or a container.\<close>

definition plain_fmt :: "pyval \<Rightarrow> string" where
  "plain_fmt v = []"

definition products :: dataframe where
  "products =
     \<lparr>columns = [''id'', ''name'', ''category'', ''price'', ''stock''],
      records =
        [[(''id'', SInt 1), (''name'', SStr ''Widget''), (''category'', SStr ''Electronics''),
          (''price'', SInt 150), (''stock'', SInt 200)],
         [(''id'', SInt 2), (''name'', SStr ''Gadget''), (''category'', SStr ''Electronics''),
          (''price'', SInt 250), (''stock'', SInt 50)]]\<rparr>"

definition q_cheap :: query where
  "q_cheap =
     [(''columns'', PList [Scalar (SStr ''*'')]),
      (''where'', PDict [(''category'', Scalar (SStr ''Electronics'')),
                         (''logical_operator'', Scalar (SStr ''OR'')),
                         (''price_lt'', Scalar (SInt 200))])]"

definition q_by_price :: query where
  "q_by_price =
     [(''columns'', PList [Scalar (SStr ''name''), Scalar (SStr ''price'')]),
      (''orderBy'', PDict [(''column'', Scalar (SStr ''price'')),
                           (''direction'', Scalar (SStr ''DESC''))])]"

definition q_by_colour :: query where
  "q_by_colour =
     [(''columns'', PList [Scalar (SStr ''*'')]),
      (''orderBy'', PDict [(''column'', Scalar (SStr ''colour'')),
                           (''direction'', Scalar (SStr ''ASC''))])]"

definition gadget_widget :: "row list" where
  "gadget_widget =
     [[(''name'', SStr ''Gadget''), (''price'', SInt 250)],
      [(''name'', SStr ''Widget''), (''price'', SInt 150)]]"

definition limits_table :: dataframe where
  "limits_table = \<lparr>columns = [''x_gt''], records = [[(''x_gt'', SInt 5)]]\<rparr>"

definition q_above_limit :: query where
  "q_above_limit =
     [(''columns'', PList [Scalar (SStr ''*'')]),
      (''where'', PDict [(''x_gt_gt'', Scalar (SInt 3))])]"

definition flags_table :: dataframe where
  "flags_table =
     \<lparr>columns = [''active''],
      records = [[(''active'', SBool True)], [(''active'', SStr ''yes'')]]\<rparr>"

definition blanks_table :: dataframe where
  "blanks_table =
     \<lparr>columns = [''id'', ''note''],
      records = [[(''id'', SInt 1), (''note'', SNone)]]\<rparr>"

definition q_star_name :: query where
  "q_star_name = [(''columns'', PList [Scalar (SStr ''*''), Scalar (SStr ''name'')])]"

definition shelves :: dataframe where
  "shelves =
     \<lparr>columns = [''shelf'', ''item''],
      records = [[(''shelf'', SInt 2), (''item'', SStr ''bolt'')],
                 [(''shelf'', SInt 1), (''item'', SStr ''nut'')],
                 [(''shelf'', SInt 2), (''item'', SStr ''gear'')],
                 [(''shelf'', SInt 1), (''item'', SStr ''pin'')]]\<rparr>"

definition shelves_ascending :: "row list" where
  "shelves_ascending =
     [[(''shelf'', SInt 1), (''item'', SStr ''nut'')],
      [(''shelf'', SInt 1), (''item'', SStr ''pin'')],
      [(''shelf'', SInt 2), (''item'', SStr ''bolt'')],
      [(''shelf'', SInt 2), (''item'', SStr ''gear'')]]"

definition shelves_descending :: "row list" where
  "shelves_descending =
     [[(''shelf'', SInt 2), (''item'', SStr ''bolt'')],
      [(''shelf'', SInt 2), (''item'', SStr ''gear'')],
      [(''shelf'', SInt 1), (''item'', SStr ''nut'')],
      [(''shelf'', SInt 1), (''item'', SStr ''pin'')]]"

definition shelves_mixed :: dataframe where
  "shelves_mixed =
     \<lparr>columns = [''shelf'', ''item''],
      records = [[(''shelf'', SInt 1), (''item'', SStr ''bolt'')],
                 [(''shelf'', SStr ''top''), (''item'', SStr ''nut'')]]\<rparr>"

definition q_by_shelf :: "string \<Rightarrow> query" where
  "q_by_shelf direction =
     [(''columns'', PList [Scalar (SStr ''*'')]),
      (''orderBy'', PDict [(''column'', Scalar (SStr ''shelf'')),
                           (''direction'', Scalar (SStr direction))])]"






section \<open>Lemmas on the steps\<close>

lemmas stage_defs = execute_query_def post_projection_def apply_where_def apply_order_by_def
  apply_select_def apply_limit_def py_sort_def dict_get_def py_slice_to_def

lemma py_lt_number: "is_number a \<Longrightarrow> is_number b \<Longrightarrow> \<exists>r. py_lt a b = Inr r"
  by (cases a; cases b) (auto split: option.splits)

lemma py_gt_val_number:
  "is_number c \<Longrightarrow> is_number s \<Longrightarrow> \<exists>r. py_gt_val c (Scalar s) = Inr r"
  using py_lt_number by simp

lemma py_lt_val_number:
  "is_number c \<Longrightarrow> is_number s \<Longrightarrow> \<exists>r. py_lt_val c (Scalar s) = Inr r"
  using py_lt_number by simp

lemma key_matches_total:
  assumes "operand_ok kv"
  shows "\<exists>r. key_matches fmt item kv = Inr r"
proof -
  obtain key val where kv: "kv = (key, val)" by (cases kv)
  consider (gt) "endswith key ''_gt''"
    | (lt) "\<not> endswith key ''_gt''" "endswith key ''_lt''"
    | (contains) "\<not> endswith key ''_gt''" "\<not> endswith key ''_lt''" "endswith key ''_contains''"
    | (isin) "\<not> endswith key ''_gt''" "\<not> endswith key ''_lt''" "\<not> endswith key ''_contains''"
        "endswith key ''_in''"
    | (other) "\<not> endswith key ''_gt''" "\<not> endswith key ''_lt''" "\<not> endswith key ''_contains''"
        "\<not> endswith key ''_in''"
    by blast
  then show ?thesis
  proof cases
    case gt
    then obtain s where s: "val = Scalar s" "is_number s"
      using assms by (auto simp: kv operand_ok_def split: pyval.splits)
    show ?thesis
    proof (cases "map_of item (py_remove ''_gt'' key)")
      case None
      then show ?thesis using gt by (auto simp: kv key_matches_def)
    next
      case (Some c)
      then show ?thesis
        using gt s py_gt_val_number [of c s] by (cases "is_number c") (auto simp: kv key_matches_def)
    qed
  next
    case lt
    then obtain s where s: "val = Scalar s" "is_number s"
      using assms by (auto simp: kv operand_ok_def split: pyval.splits)
    show ?thesis
    proof (cases "map_of item (py_remove ''_lt'' key)")
      case None
      then show ?thesis using lt by (auto simp: kv key_matches_def)
    next
      case (Some c)
      then show ?thesis
        using lt s py_lt_val_number [of c s] by (cases "is_number c") (auto simp: kv key_matches_def)
    qed
  next
    case contains
    then show ?thesis
      by (auto simp: kv key_matches_def split: option.splits scalar.splits)
  next
    case isin
    then obtain vs where vs: "val = PList vs"
      using assms by (auto simp: kv operand_ok_def split: pyval.splits)
    show ?thesis
      using isin by (auto simp: kv key_matches_def vs split: option.splits)
  next
    case other
    then show ?thesis
      by (auto simp: kv key_matches_def split: option.splits)
  qed
qed

lemma logical_operator_matches: "key_matches fmt item (''logical_operator'', v) = Inr True"
  by (simp add: key_matches_def endswith_def)

lemma logical_operator_ok: "operand_ok (''logical_operator'', v)"
  by (simp add: operand_ok_def endswith_def)

lemma row_matches_total:
  "list_all operand_ok w \<Longrightarrow>
   row_matches fmt item w = Inr (list_all (\<lambda>kv. key_matches fmt item kv = Inr True) w)"
proof (induction w)
  case Nil
  show ?case by simp
next
  case (Cons kv w)
  then obtain r where "key_matches fmt item kv = Inr r"
    using key_matches_total [of kv fmt item] by auto
  with Cons show ?case by (cases r) auto
qed

lemma filter_rows_total:
  "list_all operand_ok w \<Longrightarrow>
   filter_rows fmt (PDict w) rows =
     Inr (filter (\<lambda>item. list_all (\<lambda>kv. key_matches fmt item kv = Inr True) w) rows)"
  by (induction rows) (simp_all add: row_matches_total)

lemma apply_order_by_cong: "map_of q ''orderBy'' = map_of q' ''orderBy'' \<Longrightarrow> apply_order_by q = apply_order_by q'"
  by (intro ext) (simp add: apply_order_by_def)

lemma apply_select_cong: "map_of q ''columns'' = map_of q' ''columns'' \<Longrightarrow> apply_select q = apply_select q'"
  by (intro ext) (simp add: apply_select_def)

lemma apply_limit_cong: "map_of q ''limit'' = map_of q' ''limit'' \<Longrightarrow> apply_limit q = apply_limit q'"
  by (intro ext) (simp add: apply_limit_def)


lemma apply_order_by_records:
  "apply_order_by q (df\<lparr>records := rs\<rparr>) = apply_order_by q df"
  by (intro ext) (auto simp: apply_order_by_def split: option.splits sum.splits)

lemma execute_query_after_where:
  assumes "apply_where fmt q (records df) = Inr rs"
  shows "execute_query fmt q df = execute_query fmt (AList.delete ''where'' q) (df\<lparr>records := rs\<rparr>)"
proof -
  let ?q = "AList.delete ''where'' q"
  have o: "apply_order_by ?q = apply_order_by q"
    by (rule apply_order_by_cong) (simp add: delete_conv')
  have s: "apply_select ?q = apply_select q"
    by (rule apply_select_cong) (simp add: delete_conv')
  have l: "apply_limit ?q = apply_limit q"
    by (rule apply_limit_cong) (simp add: delete_conv')
  have w: "apply_where fmt ?q rs = Inr rs"
    by (simp add: apply_where_def delete_conv')
  have r: "records (df\<lparr>records := rs\<rparr>) = rs"
    by simp
  show ?thesis
    unfolding execute_query_def post_projection_def o s l r w assms apply_order_by_records
    by simp
qed


section \<open>The claims\<close>

text \<open>
  C1. With a non-empty \<open>where\<close> mapping whose operands are typed as the data model
  says, the rows that go on to ordering, projection and limiting are exactly the rows
  of the table that satisfy every key of the mapping, each key on its own: running the
  query is running the query without \<open>where\<close> on the table of those rows. A
  \<open>logical_operator\<close> key is no condition, and two mappings that differ only in
  \<open>logical_operator\<close> entries give the same result.
\<close>

theorem where_is_conjunction:
  assumes "map_of q ''where'' = Some (PDict w)" and "w \<noteq> []"
    and "\<forall>kv\<in>set w. operand_ok kv"
  shows "execute_query fmt q df =
           execute_query fmt (AList.delete ''where'' q)
             (df\<lparr>records :=
                  filter (\<lambda>item. \<forall>kv\<in>set w. fst kv \<noteq> ''logical_operator''
                             \<longrightarrow> key_matches fmt item kv = Inr True) (records df)\<rparr>)
       \<and> (\<forall>w' q'. filter (\<lambda>kv. fst kv \<noteq> ''logical_operator'') w'
                    = filter (\<lambda>kv. fst kv \<noteq> ''logical_operator'') w
                \<and> map_of q' = (map_of q)(''where'' \<mapsto> PDict w')
              \<longrightarrow> execute_query fmt q' df = execute_query fmt q df)"
proof -
  define sat where "sat v item = (\<forall>kv\<in>set v. fst kv \<noteq> ''logical_operator''
                             \<longrightarrow> key_matches fmt item kv = Inr True)" for v item
  have all_eq: "list_all (\<lambda>kv. key_matches fmt item kv = Inr True) v = sat v item" for v item
    by (cases "\<exists>kv\<in>set v. fst kv = ''logical_operator''")
       (auto simp: sat_def list_all_iff logical_operator_matches)
  have where_eq: "apply_where fmt p (records df) = Inr (filter (sat v) (records df))"
    if "map_of p ''where'' = Some (PDict v)" and "\<forall>kv\<in>set v. operand_ok kv" for p v
  proof (cases "v = []")
    case True
    then show ?thesis using that by (simp add: apply_where_def sat_def)
  next
    case False
    then show ?thesis
      using that filter_rows_total [of v fmt "records df"]
      by (simp add: apply_where_def list_all_iff all_eq [unfolded list_all_iff])
  qed
  have first: "execute_query fmt q df =
      execute_query fmt (AList.delete ''where'' q) (df\<lparr>records := filter (sat w) (records df)\<rparr>)"
    using execute_query_after_where [OF where_eq [OF assms(1) assms(3)]] .
  have second: "execute_query fmt q' df = execute_query fmt q df"
    if same: "filter (\<lambda>kv. fst kv \<noteq> ''logical_operator'') w'
               = filter (\<lambda>kv. fst kv \<noteq> ''logical_operator'') w"
      and q': "map_of q' = (map_of q)(''where'' \<mapsto> PDict w')" for w' q'
  proof -
    have mem: "kv \<in> set w' \<and> fst kv \<noteq> ''logical_operator'' \<longleftrightarrow>
               kv \<in> set w \<and> fst kv \<noteq> ''logical_operator''" for kv
      using arg_cong [OF same, of set] by auto
    have ok': "\<forall>kv\<in>set w'. operand_ok kv"
    proof
      fix kv assume "kv \<in> set w'"
      show "operand_ok kv"
      proof (cases "fst kv = ''logical_operator''")
        case True
        then show ?thesis using logical_operator_ok [of "snd kv"] by (cases kv) simp
      next
        case False
        then show ?thesis using mem [of kv] \<open>kv \<in> set w'\<close> assms(3) by blast
      qed
    qed
    have sat_eq: "sat w' = sat w"
      using mem by (auto simp: sat_def fun_eq_iff)
    have wq': "map_of q' ''where'' = Some (PDict w')"
      by (simp add: q')
    have w1: "apply_where fmt q' (records df) = apply_where fmt q (records df)"
      unfolding where_eq [OF wq' ok'] where_eq [OF assms(1) assms(3)] sat_eq ..
    have o: "apply_order_by q' = apply_order_by q"
      by (rule apply_order_by_cong) (simp add: q')
    have s: "apply_select q' = apply_select q"
      by (rule apply_select_cong) (simp add: q')
    have l: "apply_limit q' = apply_limit q"
      by (rule apply_limit_cong) (simp add: q')
    show ?thesis
      unfolding execute_query_def post_projection_def w1 o s l ..
  qed
  show ?thesis
    using first second unfolding sat_def by blast
qed

theorem where_is_conjunction_witness:
  "execute_query plain_fmt q_cheap products = Inr ([hd (records products)], [])
   \<and> execute_query plain_fmt
        [(''columns'', PList [Scalar (SStr ''*'')]),
         (''where'', PDict [(''category'', Scalar (SStr ''Electronics'')), (''price_lt'', Scalar (SInt 200))])]
        products
      = execute_query plain_fmt q_cheap products"
proof -
  let ?w = "[(''category'', Scalar (SStr ''Electronics'')), 
                         (''logical_operator'', Scalar (SStr ''OR'')),
                         (''price_lt'', Scalar (SInt 200))]"
  have 1: "map_of q_cheap ''where'' = Some (PDict ?w)" by (simp add: q_cheap_def)
  have 2: "?w \<noteq> []" by simp
  have 3: "\<forall>kv\<in>set ?w. operand_ok kv" by (simp add: operand_ok_def endswith_def)
  note inst = where_is_conjunction [OF 1 2 3, of plain_fmt products]
  have a: "execute_query plain_fmt q_cheap products = Inr ([hd (records products)], [])"
    unfolding inst [THEN conjunct1]
    by (simp add: q_cheap_def products_def stage_defs key_matches_def endswith_def)
  have b: "execute_query plain_fmt
        [(''columns'', PList [Scalar (SStr ''*'')]),
         (''where'', PDict [(''category'', Scalar (SStr ''Electronics'')), (''price_lt'', Scalar (SInt 200))])]
        products
      = execute_query plain_fmt q_cheap products"
    by (rule inst [THEN conjunct2, rule_format]) (auto simp: q_cheap_def fun_eq_iff)
  show ?thesis using a b by simp
qed

lemma post_projection_by_price:
  "post_projection plain_fmt ((''limit'', l) # q_by_price) products = Inr (gadget_widget, [])"
  by (simp add: q_by_price_def products_def gadget_widget_def stage_defs)

text \<open>
  C9. Without a \<open>limit\<close>, or with \<open>limit\<close> null, the result is the post-projection
  sequence; with a limit \<open>n \<ge> 0\<close> it is the first \<open>n\<close> rows of that sequence (an error
  of an earlier step is passed on), so limit 0 gives the empty sequence and a limit of
  at least the number of rows leaves the sequence as it is.
\<close>

theorem limit_takes_first_rows:
  "(map_of q ''limit'' = None \<or> map_of q ''limit'' = Some (Scalar SNone)
      \<longrightarrow> execute_query fmt q df = post_projection fmt q df)
   \<and> (0 \<le> n \<and> map_of q ''limit'' = Some (Scalar (SInt n))
      \<longrightarrow> execute_query fmt q df =
          (case post_projection fmt q df of
             Inl e \<Rightarrow> Inl e
           | Inr (rs, ws) \<Rightarrow> Inr (take (nat n) rs, ws)))
   \<and> (map_of q ''limit'' = Some (Scalar (SInt 0)) \<and> post_projection fmt q df = Inr (rs, ws)
      \<longrightarrow> execute_query fmt q df = Inr ([], ws))
   \<and> (map_of q ''limit'' = Some (Scalar (SInt n)) \<and> post_projection fmt q df = Inr (rs, ws)
        \<and> int (length rs) \<le> n
      \<longrightarrow> execute_query fmt q df = Inr (rs, ws))"
  by (auto simp: execute_query_def apply_limit_def py_slice_to_def split: sum.splits prod.splits)

theorem limit_takes_first_rows_witness:
  "execute_query plain_fmt ((''limit'', Scalar (SInt 1)) # q_by_price) products
     = Inr ([[(''name'', SStr ''Gadget''), (''price'', SInt 250)]], [])
   \<and> execute_query plain_fmt ((''limit'', Scalar SNone) # q_by_price) products
     = Inr (gadget_widget, [])
   \<and> execute_query plain_fmt ((''limit'', Scalar (SInt 0)) # q_by_price) products = Inr ([], [])
   \<and> execute_query plain_fmt ((''limit'', Scalar (SInt 2)) # q_by_price) products
     = Inr (gadget_widget, [])"
proof -
  let ?q = "\<lambda>l. (''limit'', l) # q_by_price"
  have "execute_query plain_fmt (?q (Scalar (SInt 1))) products
          = Inr ([[(''name'', SStr ''Gadget''), (''price'', SInt 250)]], [])"
    using limit_takes_first_rows
      [where q = "?q (Scalar (SInt 1))" and n = 1 and fmt = plain_fmt and df = products]
    by (simp add: post_projection_by_price gadget_widget_def)
  moreover have "execute_query plain_fmt (?q (Scalar SNone)) products = Inr (gadget_widget, [])"
    using limit_takes_first_rows
      [where q = "?q (Scalar SNone)" and fmt = plain_fmt and df = products]
    by (simp add: post_projection_by_price)
  moreover have "execute_query plain_fmt (?q (Scalar (SInt 0))) products = Inr ([], [])"
    using limit_takes_first_rows
      [where q = "?q (Scalar (SInt 0))" and fmt = plain_fmt and df = products
         and rs = gadget_widget and ws = "[]"]
    by (simp add: post_projection_by_price)
  moreover have "execute_query plain_fmt (?q (Scalar (SInt 2))) products = Inr (gadget_widget, [])"
    using limit_takes_first_rows
      [where q = "?q (Scalar (SInt 2))" and n = 2 and fmt = plain_fmt and df = products
         and rs = gadget_widget and ws = "[]"]
    by (simp add: post_projection_by_price gadget_widget_def)
  ultimately show ?thesis by simp
qed

text \<open>
  C10. A negative limit \<open>- k\<close> with \<open>0 < k \<le>\<close> the number of post-projection rows
  returns all but the last \<open>k\<close> rows of that sequence: no error is raised and no
  warning is added.
\<close>

theorem negative_limit_drops_last_rows:
  assumes "0 < k" and "k \<le> int (length rs)"
    and "map_of q ''limit'' = Some (Scalar (SInt (- k)))"
    and "post_projection fmt q df = Inr (rs, ws)"
  shows "execute_query fmt q df = Inr (take (length rs - nat k) rs, ws)
       \<and> take (length rs - nat k) rs @ drop (length rs - nat k) rs = rs
       \<and> length (drop (length rs - nat k) rs) = nat k"
  using assms by (auto simp: execute_query_def apply_limit_def py_slice_to_def)

theorem negative_limit_drops_last_rows_witness:
  "execute_query plain_fmt ((''limit'', Scalar (SInt (- 1))) # q_by_price) products
     = Inr ([[(''name'', SStr ''Gadget''), (''price'', SInt 250)]], [])"
  using negative_limit_drops_last_rows
    [where k = 1 and rs = gadget_widget and ws = "[]" and fmt = plain_fmt and df = products
       and q = "(''limit'', Scalar (SInt (- 1))) # q_by_price"]
  by (simp add: post_projection_by_price) (simp add: gadget_widget_def)

text \<open>
  C7. When \<open>orderBy\<close> has both fields and its column is a name that is not in the
  table's column index, the ORDER BY step returns the rows it was given, in their
  order, with one warning and no exception: the query runs as WHERE, SELECT and LIMIT
  alone and carries that warning.
\<close>

theorem order_by_unknown_column_warns:
  assumes "map_of q ''orderBy'' = Some (PDict ob)"
    and "map_of ob ''column'' = Some (Scalar (SStr c))"
    and "map_of ob ''direction'' = Some d"
    and "c \<notin> set (columns df)"
  shows "apply_order_by q df rs = Inr (rs, [Cannot_sort (Scalar (SStr c))])
       \<and> execute_query fmt q df =
           (case apply_where fmt q (records df) of
              Inl e \<Rightarrow> Inl e
            | Inr filtered \<Rightarrow>
                (case apply_select q filtered of
                   Inl e \<Rightarrow> Inl e
                 | Inr projected \<Rightarrow>
                     (case apply_limit q projected of
                        Inl e \<Rightarrow> Inl e
                      | Inr limited \<Rightarrow> Inr (limited, [Cannot_sort (Scalar (SStr c))]))))"
proof -
  have ne: "ob \<noteq> []" using assms(2) by auto
  have ob: "\<And>xs. apply_order_by q df xs = Inr (xs, [Cannot_sort (Scalar (SStr c))])"
    using assms ne by (simp add: apply_order_by_def)
  show ?thesis
    by (simp add: ob execute_query_def post_projection_def split: sum.splits)
qed

theorem order_by_unknown_column_warns_witness:
  "apply_order_by q_by_colour products (records products)
     = Inr (records products, [Cannot_sort (Scalar (SStr ''colour''))])
   \<and> execute_query plain_fmt q_by_colour products
     = Inr (records products, [Cannot_sort (Scalar (SStr ''colour''))])"
  using order_by_unknown_column_warns
    [where q = q_by_colour and c = "''colour''" and d = "Scalar (SStr ''ASC'')" and df = products
       and fmt = plain_fmt and rs = "records products"
       and ob = "[(''column'', Scalar (SStr ''colour'')), (''direction'', Scalar (SStr ''ASC''))]"]
  by (simp add: q_by_colour_def products_def apply_where_def apply_select_def apply_limit_def)

text \<open>
  C4. A key that ends in \<open>_gt\<close> or \<open>_lt\<close> is turned into a column name by
  \<^verbatim>\<open>key.replace('_gt', '')\<close> (or \<^verbatim>\<open>'_lt'\<close>), which deletes every occurrence of the
  suffix text, not only the last one. For the column \<open>x_gt\<close> the key is \<open>x_gt_gt\<close>; the program looks
  up the column \<open>x\<close>, finds none, and the row with \<open>x_gt = 5\<close> fails \<open>x_gt > 3\<close>.
\<close>

theorem gt_key_loses_inner_suffix:
  "endswith ''x_gt_gt'' ''_gt''
   \<and> py_remove ''_gt'' ''x_gt_gt'' = ''x''
   \<and> py_remove ''_lt'' ''x_lt_lt'' = ''x''
   \<and> key_matches plain_fmt [(''x_gt'', SInt 5)] (''x_gt_gt'', Scalar (SInt 3)) = Inr False
   \<and> execute_query plain_fmt q_above_limit limits_table = Inr ([], [])"
  by (simp add: endswith_def key_matches_def q_above_limit_def limits_table_def stage_defs)

text \<open>
  C2. The first non-missing value decides the type, but the test for \<^verbatim>\<open>(int, float)\<close>
  comes before the test for \<^verbatim>\<open>bool\<close>, and a boolean is an \<^verbatim>\<open>int\<close>: a column whose
  first value is \<^verbatim>\<open>True\<close> is reported as \<open>number\<close>, and \<open>boolean\<close> is never
  reported. A column with no value at all ends the function with \<^verbatim>\<open>IndexError\<close>,
  since \<^verbatim>\<open>.iloc[0]\<close> reads an empty series.
\<close>

theorem schema_boolean_and_missing:
  "generate_schema_definition flags_table
     = Inr (''The database has one table called 'products' with the following schema:''
            @ [CHR 0x0A] @ ''- active (number)'')
   \<and> generate_schema_definition blanks_table = Inl IndexError"
  by (simp add: generate_schema_definition_def df_empty_def flags_table_def blanks_table_def
        get_column_def infer_col_type_def dropna_def series_dtype_def)

text \<open>
  A column of integers only comes back from pandas as \<^verbatim>\<open>numpy.int64\<close> values, which
  are no Python \<^verbatim>\<open>int\<close>: the numeric columns of the products table are reported as
  \<open>string\<close>, too.
\<close>

lemma schema_of_products:
  "generate_schema_definition products
     = Inr (''The database has one table called 'products' with the following schema:''
            @ [CHR 0x0A] @ ''- id (string)''
            @ [CHR 0x0A] @ ''- name (string)''
            @ [CHR 0x0A] @ ''- category (string)''
            @ [CHR 0x0A] @ ''- price (string)''
            @ [CHR 0x0A] @ ''- stock (string)'')"
  by (simp add: generate_schema_definition_def df_empty_def products_def
        get_column_def infer_col_type_def dropna_def series_dtype_def)

lemma scalar_eq_iff:
  "scalar_eq a b \<longleftrightarrow>
     (a = b \<and> a \<noteq> SNaN) \<or> (\<exists>x. num_val a = Some x \<and> num_val b = Some x)"
  by (cases a; cases b) auto

text \<open>
  C8 (as amended). For a key without operator suffix other than \<open>logical_operator\<close>,
  the row passes iff it has the column and the cell equals the given value by Python's
  \<^verbatim>\<open>==\<close>: the same string, \<^verbatim>\<open>None\<close> with \<^verbatim>\<open>None\<close>, or two numbers of the same
  numeric value, where a boolean counts as the number 1 or 0 and NaN equals nothing. A
  column missing from the row fails the key; nothing raises.
\<close>

theorem exact_match_is_python_equality:
  assumes "\<not> endswith key ''_gt''" and "\<not> endswith key ''_lt''"
    and "\<not> endswith key ''_contains''" and "\<not> endswith key ''_in''"
    and "key \<noteq> ''logical_operator''"
  shows "key_matches fmt item (key, value) =
           Inr (\<exists>c s. map_of item key = Some c \<and> value = Scalar s
                  \<and> ((c = s \<and> c \<noteq> SNaN) \<or> (\<exists>x. num_val c = Some x \<and> num_val s = Some x)))"
proof (cases "map_of item key")
  case None
  then show ?thesis using assms by (simp add: key_matches_def)
next
  case (Some c)
  show ?thesis
  proof (cases "value")
    case (Scalar s)
    then show ?thesis using assms Some by (simp add: key_matches_def scalar_eq_iff)
  next
    case (PList vs)
    then show ?thesis using assms Some by (simp add: key_matches_def)
  next
    case (PDict kvs)
    then show ?thesis using assms Some by (simp add: key_matches_def)
  qed
qed

theorem exact_match_is_python_equality_witness:
  "key_matches plain_fmt [(''stock'', SInt 50)] (''stock'', Scalar (SFloat 50)) = Inr True
   \<and> key_matches plain_fmt [(''stock'', SInt 50)] (''stock'', Scalar (SStr ''50'')) = Inr False
   \<and> key_matches plain_fmt [(''stock'', SInt 50)] (''price'', Scalar (SInt 50)) = Inr False"
  using exact_match_is_python_equality [of "''stock''" plain_fmt "[(''stock'', SInt 50)]" "Scalar (SFloat 50)"]
    exact_match_is_python_equality [of "''stock''" plain_fmt "[(''stock'', SInt 50)]" "Scalar (SStr ''50'')"]
    exact_match_is_python_equality [of "''price''" plain_fmt "[(''stock'', SInt 50)]" "Scalar (SInt 50)"]
  by (simp add: endswith_def)

text \<open>The claim as stated asks for equality of type and value: the cell \<^verbatim>\<open>True\<close> passes
  the key \<open>active\<close> with the value \<open>1\<close>, which is no boolean.\<close>

theorem exact_match_ignores_type_counterexample:
  "key_matches plain_fmt [(''active'', SBool True)] (''active'', Scalar (SInt 1)) = Inr True
   \<and> \<not> (\<exists>c. map_of [(''active'', SBool True)] ''active'' = Some c \<and> Scalar (SInt 1) = Scalar c)"
  by (simp add: key_matches_def endswith_def)

lemma set_first_occurrences [simp]: "set (first_occurrences xs) = set xs"
  by (induction xs) auto

lemma distinct_first_occurrences [simp]: "distinct (first_occurrences xs)"
  by (induction xs) auto

lemma map_of_requested_cells:
  "map_of (requested_cells xs item) c = (if c \<in> set xs then map_of item c else None)"
  by (induction xs) (auto split: option.splits)

lemma keys_requested_cells:
  "map fst (requested_cells xs item) = filter (\<lambda>c. map_of item c \<noteq> None) xs"
  by (induction xs) (auto split: option.splits)

lemma requested_cells_filter_absent:
  "map_of item n = None \<Longrightarrow>
   requested_cells (filter (\<lambda>y. y \<noteq> n \<and> P y) xs) item = requested_cells (filter P xs) item"
  by (induction xs) (auto split: option.splits)

lemma update_fresh: "k \<notin> fst ` set al \<Longrightarrow> AList.update k v al = al @ [(k, v)]"
  by (induction al) auto

lemma map_of_acc:
  assumes "list_all (\<lambda>kv. map_of item (fst kv) = Some (snd kv)) acc" and "n \<in> fst ` set acc"
    and "map_of item n = Some v"
  shows "map_of acc n = Some v"
proof -
  obtain v' where "map_of acc n = Some v'"
    using assms(2) by (metis domD dom_map_of_conv_image_fst)
  then have "(n, v') \<in> set acc" by (rule map_of_SomeD)
  then have "map_of item n = Some v'" using assms(1) by (auto simp: list_all_iff)
  then show ?thesis using assms(3) \<open>map_of acc n = Some v'\<close> by simp
qed

lemma project_row_names:
  "list_all (\<lambda>kv. map_of item (fst kv) = Some (snd kv)) acc \<Longrightarrow>
   project_row (map (\<lambda>s. Scalar (SStr s)) names) item acc =
     Inr (acc @ requested_cells (filter (\<lambda>c. c \<notin> fst ` set acc) (first_occurrences names)) item)"
proof (induction names arbitrary: acc)
  case Nil
  show ?case by simp
next
  case (Cons n ns)
  show ?case
  proof (cases "map_of item n")
    case None
    have "requested_cells (filter (\<lambda>y. y \<noteq> n \<and> y \<notin> fst ` set acc) (first_occurrences ns)) item
          = requested_cells (filter (\<lambda>y. y \<notin> fst ` set acc) (first_occurrences ns)) item"
      using None by (rule requested_cells_filter_absent)
    then show ?thesis
      using None Cons.IH [OF Cons.prems] by (simp add: conj_commute)
  next
    case (Some v)
    show ?thesis
    proof (cases "n \<in> fst ` set acc")
      case True
      have "AList.update n v acc = acc"
        using map_of_acc [OF Cons.prems True Some] by (rule update_triv)
      moreover have "filter (\<lambda>c. c \<notin> fst ` set acc) (filter (\<lambda>y. y \<noteq> n) (first_occurrences ns))
                     = filter (\<lambda>c. c \<notin> fst ` set acc) (first_occurrences ns)"
        using True by (auto intro!: filter_cong)
      ultimately show ?thesis
        using Some True Cons.IH [OF Cons.prems] by simp
    next
      case False
      have upd: "AList.update n v acc = acc @ [(n, v)]"
        using False by (rule update_fresh)
      have inv: "list_all (\<lambda>kv. map_of item (fst kv) = Some (snd kv)) (acc @ [(n, v)])"
        using Cons.prems Some by simp
      have "filter (\<lambda>c. c \<notin> fst ` set (acc @ [(n, v)])) (first_occurrences ns)
            = filter (\<lambda>c. c \<notin> fst ` set acc) (filter (\<lambda>y. y \<noteq> n) (first_occurrences ns))"
        by (auto intro!: filter_cong)
      then show ?thesis
        using Some False upd Cons.IH [OF inv] by simp
    qed
  qed
qed

lemma project_rows_names:
  "project_rows (PList (map (\<lambda>s. Scalar (SStr s)) names)) rs =
     Inr (map (requested_cells (first_occurrences names)) rs)"
  by (induction rs) (simp_all add: project_row_names)

lemma project_row_keys:
  "project_row cols item acc = Inr new \<Longrightarrow>
   fst ` set new \<subseteq> fst ` set acc \<union> {s. Scalar (SStr s) \<in> set cols}"
proof (induction cols arbitrary: acc)
  case Nil
  then show ?case by simp
next
  case (Cons col cols)
  show ?case
  proof (cases col)
    case (Scalar v)
    show ?thesis
    proof (cases v)
      case (SStr s)
      show ?thesis
      proof (cases "map_of item s")
        case None
        then show ?thesis using Cons Scalar SStr by auto
      next
        case (Some c)
        then have "project_row cols item (AList.update s c acc) = Inr new"
          using Cons.prems Scalar SStr by simp
        from Cons.IH [OF this] show ?thesis
          using Scalar SStr by (auto simp: dom_update)
      qed
    qed (use Cons Scalar in auto)
  qed (use Cons in auto)
qed

lemma fresh_column: "\<exists>k. Scalar (SStr k) \<notin> set cols"
proof -
  have "finite ((\<lambda>s. Scalar (SStr s)) -` set cols)"
    by (rule finite_vimageI) (auto simp: inj_on_def)
  then obtain k where "k \<notin> (\<lambda>s. Scalar (SStr s)) -` set cols"
    using ex_new_if_finite [OF infinite_UNIV_listI] by blast
  then show ?thesis by auto
qed

lemma project_rows_changes:
  "\<exists>rs. project_rows cs rs \<noteq> Inr rs"
proof (cases "iter_cols cs")
  case (Inl e)
  then have "project_rows cs [[]] \<noteq> Inr [[]]" by simp
  then show ?thesis ..
next
  case (Inr cols)
  obtain k where k: "Scalar (SStr k) \<notin> set cols" using fresh_column by blast
  let ?item = "[(k, SNone)]"
  have "project_rows cs [?item] \<noteq> Inr [?item]"
  proof (cases "project_row cols ?item []")
    case (Inl e)
    then show ?thesis using Inr by simp
  next
    case new: (Inr new)
    from project_row_keys [OF this] have "k \<notin> fst ` set new" using k by auto
    then have "new \<noteq> ?item" by auto
    then show ?thesis using Inr new by simp
  qed
  then show ?thesis ..
qed

text \<open>
  C3 (as amended). Projection is skipped, whatever the rows, iff \<open>columns\<close> is absent,
  or falsy (null, an empty list), or its first element is \<open>*\<close>. When \<open>columns\<close> is
  a non-empty list of names that does not start with \<open>*\<close>, every output row is a new
  mapping with the requested columns the row has and no other, in the order of their
  first occurrence in the request, each with the row's value; a requested column the
  row does not have is left out.
\<close>

theorem projection_by_first_element:
  "((\<forall>rs. apply_select q rs = Inr rs) \<longleftrightarrow>
      (map_of q ''columns'' = None
       \<or> (\<exists>cs. map_of q ''columns'' = Some cs
              \<and> (\<not> truthy cs \<or> first_elem cs = Inr (Scalar (SStr ''*''))))))
   \<and> (map_of q ''columns'' = Some (PList (map (\<lambda>s. Scalar (SStr s)) names))
        \<and> names \<noteq> [] \<and> hd names \<noteq> ''*''
      \<longrightarrow> apply_select q rs = Inr (map (requested_cells (first_occurrences names)) rs)
          \<and> (\<forall>item c. map_of (requested_cells (first_occurrences names) item) c
                         = (if c \<in> set names then map_of item c else None))
          \<and> (\<forall>item. map fst (requested_cells (first_occurrences names) item)
                       = filter (\<lambda>c. map_of item c \<noteq> None) (first_occurrences names)))"
proof (intro conjI impI)
  show "(\<forall>rs. apply_select q rs = Inr rs) \<longleftrightarrow>
      (map_of q ''columns'' = None
       \<or> (\<exists>cs. map_of q ''columns'' = Some cs
              \<and> (\<not> truthy cs \<or> first_elem cs = Inr (Scalar (SStr ''*'')))))"
  proof (cases "map_of q ''columns''")
    case None
    then show ?thesis by (simp add: apply_select_def)
  next
    case (Some cs)
    show ?thesis
    proof (cases "truthy cs")
      case False
      then show ?thesis using Some by (simp add: apply_select_def)
    next
      case True
      show ?thesis
      proof (cases "first_elem cs")
        case (Inl e)
        then have "apply_select q [] \<noteq> Inr []" using Some True by (simp add: apply_select_def)
        then show ?thesis using Some True Inl by auto
      next
        case (Inr c0)
        show ?thesis
        proof (cases "c0 = Scalar (SStr ''*'')")
          case True
          then show ?thesis using Some \<open>truthy cs\<close> Inr by (simp add: apply_select_def)
        next
          case False
          obtain rs where "project_rows cs rs \<noteq> Inr rs" using project_rows_changes by blast
          then have "apply_select q rs \<noteq> Inr rs"
            using Some True Inr False by (simp add: apply_select_def)
          then show ?thesis using Some True Inr False by auto
        qed
      qed
    qed
  qed
next
  assume a: "map_of q ''columns'' = Some (PList (map (\<lambda>s. Scalar (SStr s)) names))
        \<and> names \<noteq> [] \<and> hd names \<noteq> ''*''"
  then obtain n ns where names: "names = n # ns" "n \<noteq> ''*''"
    by (cases names) auto
  show "apply_select q rs = Inr (map (requested_cells (first_occurrences names)) rs)"
    using a project_rows_names [of names rs] unfolding names
    by (simp add: apply_select_def)
  show "\<forall>item c. map_of (requested_cells (first_occurrences names) item) c
                         = (if c \<in> set names then map_of item c else None)"
    by (simp add: map_of_requested_cells)
  show "\<forall>item. map fst (requested_cells (first_occurrences names) item)
                       = filter (\<lambda>c. map_of item c \<noteq> None) (first_occurrences names)"
    by (simp add: keys_requested_cells)
qed


theorem projection_by_first_element_witness:
  "apply_select q_star_name (records products) = Inr (records products)
   \<and> apply_select
        [(''columns'', PList [Scalar (SStr ''name''), Scalar (SStr ''price''),
                              Scalar (SStr ''name''), Scalar (SStr ''colour'')])]
        (records products)
      = Inr [[(''name'', SStr ''Widget''), (''price'', SInt 150)],
             [(''name'', SStr ''Gadget''), (''price'', SInt 250)]]"
proof -
  let ?names = "[''name'', ''price'', ''name'', ''colour'']"
  let ?q = "[(''columns'', PList (map (\<lambda>s. Scalar (SStr s)) ?names))]"
  have "\<forall>rs. apply_select q_star_name rs = Inr rs"
    using projection_by_first_element [where q = q_star_name, THEN conjunct1]
    by (simp add: q_star_name_def)
  then have a: "apply_select q_star_name (records products) = Inr (records products)" ..
  have "apply_select ?q (records products)
          = Inr (map (requested_cells (first_occurrences ?names)) (records products))"
    using projection_by_first_element
      [where q = ?q and names = ?names and rs = "records products", THEN conjunct2]
    by simp
  then have b: "apply_select ?q (records products)
      = Inr [[(''name'', SStr ''Widget''), (''price'', SInt 150)],
             [(''name'', SStr ''Gadget''), (''price'', SInt 250)]]"
    by (simp add: products_def)
  show ?thesis using a b by simp
qed

text \<open>The claim as stated skips projection only for an absent field and for the list
  \<open>["*"]\<close>: the request \<open>["*", "name"]\<close> and the empty request are skipped as well, and
  the rows keep the columns nobody asked for.\<close>

theorem projection_skip_counterexample:
  "map_of q_star_name ''columns'' \<noteq> None
   \<and> map_of q_star_name ''columns'' \<noteq> Some (PList [Scalar (SStr ''*'')])
   \<and> apply_select q_star_name (records products) = Inr (records products)
   \<and> map fst (hd (records products)) = [''id'', ''name'', ''category'', ''price'', ''stock'']
   \<and> apply_select [(''columns'', PList [])] (records products) = Inr (records products)"
  by (simp add: q_star_name_def products_def apply_select_def)

lemma py_insort_insort_key:
  fixes f :: "row \<Rightarrow> 'a::linorder"
  assumes "\<forall>y\<in>set ys. py_lt (k y) (k x) = Inr (f y < f x)"
  shows "py_insort k x ys = Inr (insort_key f x ys)"
  using assms by (induction ys) (auto simp: not_less)

lemma py_isort_sort_key:
  fixes f :: "row \<Rightarrow> 'a::linorder"
  assumes "\<forall>a\<in>set xs. \<forall>b\<in>set xs. py_lt (k a) (k b) = Inr (f a < f b)"
  shows "py_isort k xs = Inr (sort_key f xs)"
  using assms
proof (induction xs)
  case Nil
  show ?case by simp
next
  case (Cons x xs)
  have "py_isort k xs = Inr (sort_key f xs)"
    using Cons by simp
  moreover have "py_insort k x (sort_key f xs) = Inr (insort_key f x (sort_key f xs))"
    by (rule py_insort_insort_key) (use Cons.prems in simp)
  ultimately show ?case by simp
qed

lemma py_sort_sort_key:
  fixes f :: "row \<Rightarrow> 'a::linorder"
  assumes "\<forall>a\<in>set xs. \<forall>b\<in>set xs. py_lt (k a) (k b) = Inr (f a < f b)"
  shows "py_sort k reverse xs =
           Inr (if reverse then rev (sort_key f (rev xs)) else sort_key f xs)"
proof -
  have "py_isort k (rev xs) = Inr (sort_key f (rev xs))"
    by (rule py_isort_sort_key) (use assms in simp)
  moreover have "py_isort k xs = Inr (sort_key f xs)"
    by (rule py_isort_sort_key) (use assms in simp)
  ultimately show ?thesis by (simp add: py_sort_def)
qed

lemma sort_key_rev_distinct:
  fixes f :: "'b \<Rightarrow> 'a::linorder"
  assumes "distinct (map f xs)"
  shows "sort_key f (rev xs) = sort_key f xs"
proof (rule sort_key_inj_key_eq)
  show "mset (rev xs) = mset (sort_key f xs)" by simp
  show "inj_on f (set (rev xs))" using assms by (simp add: distinct_map)
  show "sorted (map f (sort_key f xs))" by simp
qed

lemma pairwise_distinct_map:
  "sorted_wrt (\<lambda>a b. f a \<noteq> f b) xs \<longleftrightarrow> distinct (map f xs)"
  by (induction xs) auto

text \<open>What a sort by a rank \<open>f\<close> gives, read with the program's own comparisons.\<close>

lemma py_sort_properties:
  fixes f :: "row \<Rightarrow> 'a::linorder"
  assumes lt: "\<forall>a\<in>set xs. \<forall>b\<in>set xs. py_lt (k a) (k b) = Inr (f a < f b)"
    and eq: "\<forall>a\<in>set xs. \<forall>b\<in>set xs. scalar_eq (k a) (k b) \<longleftrightarrow> f a = f b"
  shows "\<exists>out. py_sort k reverse xs = Inr out
      \<and> mset out = mset xs
      \<and> (\<forall>x\<in>set xs. filter (\<lambda>r. scalar_eq (k r) (k x)) out = filter (\<lambda>r. scalar_eq (k r) (k x)) xs)
      \<and> (if reverse then sorted_wrt (\<lambda>a b. py_lt (k a) (k b) = Inr False) out
          else sorted_wrt (\<lambda>a b. py_lt (k b) (k a) = Inr False) out)
      \<and> (reverse \<longrightarrow> (\<exists>asc. py_sort k False (rev xs) = Inr asc \<and> out = rev asc))
      \<and> (reverse \<and> sorted_wrt (\<lambda>a b. \<not> scalar_eq (k a) (k b)) xs
           \<longrightarrow> (\<exists>asc. py_sort k False xs = Inr asc \<and> out = rev asc))"
proof -
  define out where "out = (if reverse then rev (sort_key f (rev xs)) else sort_key f xs)"
  have set_out: "set out = set xs" by (simp add: out_def)
  have res: "py_sort k reverse xs = Inr out"
    unfolding out_def by (rule py_sort_sort_key [OF lt])
  have ms: "mset out = mset xs" by (simp add: out_def)
  have stable_f: "filter (\<lambda>r. f r = v) out = filter (\<lambda>r. f r = v) xs" for v
  proof (cases reverse)
    case True
    have "filter (\<lambda>r. f r = v) out = rev (filter (\<lambda>r. f r = v) (sort_key f (rev xs)))"
      using True by (simp add: out_def rev_filter)
    also have "\<dots> = rev (filter (\<lambda>r. f r = v) (rev xs))" by (simp only: sort_key_stable)
    also have "\<dots> = filter (\<lambda>r. f r = v) xs" by (simp add: rev_filter)
    finally show ?thesis .
  next
    case False
    then show ?thesis by (simp add: out_def sort_key_stable)
  qed
  have stable: "filter (\<lambda>r. scalar_eq (k r) (k x)) out = filter (\<lambda>r. scalar_eq (k r) (k x)) xs"
    if "x \<in> set xs" for x
  proof -
    have "filter (\<lambda>r. scalar_eq (k r) (k x)) out = filter (\<lambda>r. f r = f x) out"
      using eq that set_out by (intro filter_cong) auto
    also have "\<dots> = filter (\<lambda>r. f r = f x) xs" by (rule stable_f)
    also have "\<dots> = filter (\<lambda>r. scalar_eq (k r) (k x)) xs"
      using eq that by (intro filter_cong) auto
    finally show ?thesis .
  qed
  have asc_sorted: "sorted_wrt (\<lambda>a b. f a \<le> f b) (sort_key f ys)" for ys
    using sorted_sort_key [of f ys] by (simp add: sorted_map)
  have ordered: "if reverse then sorted_wrt (\<lambda>a b. py_lt (k a) (k b) = Inr False) out
          else sorted_wrt (\<lambda>a b. py_lt (k b) (k a) = Inr False) out"
  proof (cases reverse)
    case True
    have "sorted_wrt (\<lambda>a b. f b \<le> f a) out"
      using True asc_sorted [of "rev xs"] by (simp add: out_def sorted_wrt_rev)
    then have "sorted_wrt (\<lambda>a b. py_lt (k a) (k b) = Inr False) out"
      by (rule sorted_wrt_mono_rel [rotated]) (use lt set_out in \<open>auto simp: not_less\<close>)
    then show ?thesis using True by simp
  next
    case False
    have "sorted_wrt (\<lambda>a b. f a \<le> f b) out"
      using False asc_sorted [of xs] by (simp add: out_def)
    then have "sorted_wrt (\<lambda>a b. py_lt (k b) (k a) = Inr False) out"
      by (rule sorted_wrt_mono_rel [rotated]) (use lt set_out in \<open>auto simp: not_less\<close>)
    then show ?thesis using False by simp
  qed
  have lt_rev: "\<forall>a\<in>set (rev xs). \<forall>b\<in>set (rev xs). py_lt (k a) (k b) = Inr (f a < f b)"
    using lt by simp
  have rev1: "\<exists>asc. py_sort k False (rev xs) = Inr asc \<and> out = rev asc" if reverse
    using that py_sort_sort_key [OF lt_rev, of False] by (simp add: out_def)
  have rev2: "\<exists>asc. py_sort k False xs = Inr asc \<and> out = rev asc"
    if reverse and d: "sorted_wrt (\<lambda>a b. \<not> scalar_eq (k a) (k b)) xs"
  proof -
    have "sorted_wrt (\<lambda>a b. f a \<noteq> f b) xs"
      using d by (rule sorted_wrt_mono_rel [rotated]) (use eq in auto)
    then have "distinct (map f xs)" by (simp add: pairwise_distinct_map)
    then have "sort_key f (rev xs) = sort_key f xs" by (rule sort_key_rev_distinct)
    then show ?thesis
      using that py_sort_sort_key [OF lt, of False] by (simp add: out_def)
  qed
  show ?thesis
    using res ms stable ordered rev1 rev2 by blast
qed

lemma py_lt_numbers:
  "num_val a = Some x \<Longrightarrow> num_val b = Some y \<Longrightarrow> py_lt a b = Inr (x < y)"
  by (cases a; cases b) auto

lemma scalar_eq_numbers:
  "num_val a = Some x \<Longrightarrow> num_val b = Some y \<Longrightarrow> scalar_eq a b \<longleftrightarrow> x = y"
  by (cases a; cases b) auto

lemma str_lt_lex: "str_lt s t \<longleftrightarrow> map of_char s < (map of_char t :: nat list)"
  by (induction s t rule: str_lt.induct) auto

lemma codes_eq_iff: "map of_char s = (map of_char t :: nat list) \<longleftrightarrow> s = t"
  by (rule inj_map_eq_map) (simp add: inj_on_def)

lemma py_sort_comparable:
  assumes "list_all (\<lambda>r. num_val (k r) \<noteq> None) xs \<or> list_all (\<lambda>r. is_str (k r)) xs"
  shows "\<exists>out. py_sort k reverse xs = Inr out
      \<and> mset out = mset xs
      \<and> (\<forall>x\<in>set xs. filter (\<lambda>r. scalar_eq (k r) (k x)) out = filter (\<lambda>r. scalar_eq (k r) (k x)) xs)
      \<and> (if reverse then sorted_wrt (\<lambda>a b. py_lt (k a) (k b) = Inr False) out
          else sorted_wrt (\<lambda>a b. py_lt (k b) (k a) = Inr False) out)
      \<and> (reverse \<longrightarrow> (\<exists>asc. py_sort k False (rev xs) = Inr asc \<and> out = rev asc))
      \<and> (reverse \<and> sorted_wrt (\<lambda>a b. \<not> scalar_eq (k a) (k b)) xs
           \<longrightarrow> (\<exists>asc. py_sort k False xs = Inr asc \<and> out = rev asc))"
  using assms
proof
  assume num: "list_all (\<lambda>r. num_val (k r) \<noteq> None) xs"
  define f where "f r = the (num_val (k r))" for r
  have val: "num_val (k r) = Some (f r)" if "r \<in> set xs" for r
    using num that by (auto simp: f_def list_all_iff)
  show ?thesis
  proof (rule py_sort_properties [where f = f])
    show "\<forall>a\<in>set xs. \<forall>b\<in>set xs. py_lt (k a) (k b) = Inr (f a < f b)"
      using val by (simp add: py_lt_numbers)
    show "\<forall>a\<in>set xs. \<forall>b\<in>set xs. scalar_eq (k a) (k b) \<longleftrightarrow> f a = f b"
      using val by (simp add: scalar_eq_numbers)
  qed
next
  assume str: "list_all (\<lambda>r. is_str (k r)) xs"
  define f :: "row \<Rightarrow> nat list"
    where "f r = (case k r of SStr s \<Rightarrow> map of_char s | _ \<Rightarrow> [])" for r
  have val: "\<exists>s. k r = SStr s \<and> f r = map of_char s" if "r \<in> set xs" for r
    using str that by (cases "k r") (auto simp: f_def list_all_iff)
  show ?thesis
  proof (rule py_sort_properties [where f = f])
    show "\<forall>a\<in>set xs. \<forall>b\<in>set xs. py_lt (k a) (k b) = Inr (f a < f b)"
    proof (intro ballI)
      fix a b assume "a \<in> set xs" "b \<in> set xs"
      then obtain s t where "k a = SStr s" "f a = map of_char s" "k b = SStr t" "f b = map of_char t"
        using val by blast
      then show "py_lt (k a) (k b) = Inr (f a < f b)" by (simp add: str_lt_lex)
    qed
    show "\<forall>a\<in>set xs. \<forall>b\<in>set xs. scalar_eq (k a) (k b) \<longleftrightarrow> f a = f b"
    proof (intro ballI)
      fix a b assume "a \<in> set xs" "b \<in> set xs"
      then obtain s t where "k a = SStr s" "f a = map of_char s" "k b = SStr t" "f b = map of_char t"
        using val by blast
      then show "scalar_eq (k a) (k b) \<longleftrightarrow> f a = f b" by (simp add: codes_eq_iff)
    qed
  qed
qed

text \<open>
  C5 (as amended). When \<open>orderBy\<close> has both fields, its column is in the table and the
  values of that column in the rows to be ordered can be compared with each other (all
  of them numbers other than NaN, or all of them strings), the ORDER BY step performs a
  stable sort on that column: it raises nothing and returns a permutation of its input
  in which the rows with equal keys stand in their input order, for \<open>DESC\<close> as for
  every other direction. \<open>DESC\<close> reverses the ascending order: ascending, no row has a
  larger key than a row after it; descending, no row has a smaller one. When no two
  rows have equal keys the descending result is the ascending result read backwards,
  and in every case it is the ascending sort of the reversed input read backwards. With
  NaN among the keys Python fixes no order, and nothing is said of it.
\<close>

theorem order_by_sorts_stably:
  assumes "map_of q ''orderBy'' = Some (PDict ob)"
    and "map_of ob ''column'' = Some (Scalar (SStr c))"
    and "map_of ob ''direction'' = Some d"
    and "c \<in> set (columns df)"
    and "list_all (\<lambda>r. num_val (dict_get c r) \<noteq> None) rs
         \<or> list_all (\<lambda>r. is_str (dict_get c r)) rs"
  shows "\<exists>out. apply_order_by q df rs = Inr (out, [])
      \<and> mset out = mset rs
      \<and> (\<forall>x\<in>set rs. filter (\<lambda>r. scalar_eq (dict_get c r) (dict_get c x)) out
                      = filter (\<lambda>r. scalar_eq (dict_get c r) (dict_get c x)) rs)
      \<and> (if d = Scalar (SStr ''DESC'')
          then sorted_wrt (\<lambda>a b. py_lt (dict_get c a) (dict_get c b) = Inr False) out
          else sorted_wrt (\<lambda>a b. py_lt (dict_get c b) (dict_get c a) = Inr False) out)
      \<and> (d = Scalar (SStr ''DESC'')
           \<longrightarrow> (\<exists>asc. py_sort (dict_get c) False (rev rs) = Inr asc \<and> out = rev asc))
      \<and> (d = Scalar (SStr ''DESC'')
           \<and> sorted_wrt (\<lambda>a b. \<not> scalar_eq (dict_get c a) (dict_get c b)) rs
           \<longrightarrow> (\<exists>asc. py_sort (dict_get c) False rs = Inr asc \<and> out = rev asc))"
proof -
  have ne: "ob \<noteq> []" using assms(2) by auto
  have step: "apply_order_by q df rs =
      (case py_sort (dict_get c) (d = Scalar (SStr ''DESC'')) rs of
         Inl e \<Rightarrow> Inl e | Inr sorted_rows \<Rightarrow> Inr (sorted_rows, []))"
    using assms(1-4) ne by (simp add: apply_order_by_def)
  from py_sort_comparable [OF assms(5), of "d = Scalar (SStr ''DESC'')"]
  obtain out where out: "py_sort (dict_get c) (d = Scalar (SStr ''DESC'')) rs = Inr out"
    and rest: "mset out = mset rs"
      "\<forall>x\<in>set rs. filter (\<lambda>r. scalar_eq (dict_get c r) (dict_get c x)) out
                      = filter (\<lambda>r. scalar_eq (dict_get c r) (dict_get c x)) rs"
      "if d = Scalar (SStr ''DESC'')
          then sorted_wrt (\<lambda>a b. py_lt (dict_get c a) (dict_get c b) = Inr False) out
          else sorted_wrt (\<lambda>a b. py_lt (dict_get c b) (dict_get c a) = Inr False) out"
      "d = Scalar (SStr ''DESC'')
           \<longrightarrow> (\<exists>asc. py_sort (dict_get c) False (rev rs) = Inr asc \<and> out = rev asc)"
      "d = Scalar (SStr ''DESC'')
           \<and> sorted_wrt (\<lambda>a b. \<not> scalar_eq (dict_get c a) (dict_get c b)) rs
           \<longrightarrow> (\<exists>asc. py_sort (dict_get c) False rs = Inr asc \<and> out = rev asc)"
    by blast
  have "apply_order_by q df rs = Inr (out, [])"
    using step out by simp
  then show ?thesis using rest by blast
qed

theorem order_by_sorts_stably_witness:
  "apply_order_by (q_by_shelf ''ASC'') shelves (records shelves) = Inr (shelves_ascending, [])
   \<and> apply_order_by (q_by_shelf ''DESC'') shelves (records shelves) = Inr (shelves_descending, [])
   \<and> (\<exists>out. apply_order_by (q_by_shelf ''DESC'') shelves (records shelves) = Inr (out, [])
          \<and> mset out = mset (records shelves)
          \<and> sorted_wrt (\<lambda>a b. py_lt (dict_get ''shelf'' a) (dict_get ''shelf'' b) = Inr False) out)"
proof -
  let ?asc = "[(''column'', Scalar (SStr ''shelf'')), (''direction'', Scalar (SStr ''ASC''))]"
  let ?desc = "[(''column'', Scalar (SStr ''shelf'')), (''direction'', Scalar (SStr ''DESC''))]"
  have a1: "map_of (q_by_shelf ''ASC'') ''orderBy'' = Some (PDict ?asc)"
    by (simp add: q_by_shelf_def)
  have d1: "map_of (q_by_shelf ''DESC'') ''orderBy'' = Some (PDict ?desc)"
    by (simp add: q_by_shelf_def)
  have a2: "map_of ?asc ''column'' = Some (Scalar (SStr ''shelf''))" by simp
  have d2: "map_of ?desc ''column'' = Some (Scalar (SStr ''shelf''))" by simp
  have a3: "map_of ?asc ''direction'' = Some (Scalar (SStr ''ASC''))" by simp
  have d3: "map_of ?desc ''direction'' = Some (Scalar (SStr ''DESC''))" by simp
  have 4: "''shelf'' \<in> set (columns shelves)" by (simp add: shelves_def)
  have 5: "list_all (\<lambda>r. num_val (dict_get ''shelf'' r) \<noteq> None) (records shelves)
         \<or> list_all (\<lambda>r. is_str (dict_get ''shelf'' r)) (records shelves)"
    by (simp add: shelves_def dict_get_def)
  from order_by_sorts_stably [OF a1 a2 a3 4 5]
  obtain up where up: "apply_order_by (q_by_shelf ''ASC'') shelves (records shelves) = Inr (up, [])"
    by blast
  from order_by_sorts_stably [OF d1 d2 d3 4 5]
  obtain down where down: "apply_order_by (q_by_shelf ''DESC'') shelves (records shelves) = Inr (down, [])"
    and perm: "mset down = mset (records shelves)"
    and ordered: "sorted_wrt (\<lambda>a b. py_lt (dict_get ''shelf'' a) (dict_get ''shelf'' b) = Inr False) down"
    by auto
  have "apply_order_by (q_by_shelf ''ASC'') shelves (records shelves) = Inr (shelves_ascending, [])"
    by (simp add: q_by_shelf_def shelves_def shelves_ascending_def stage_defs)
  moreover have "apply_order_by (q_by_shelf ''DESC'') shelves (records shelves)
                   = Inr (shelves_descending, [])"
    by (simp add: q_by_shelf_def shelves_def shelves_descending_def stage_defs)
  ultimately show ?thesis using up down perm ordered by auto
qed

text \<open>
  The claim as stated speaks of every \<open>orderBy\<close> whose column is in the table. When the
  column holds the number 1 in one row and the string \<open>top\<close> in another, the sort
  compares the two, Python raises \<^verbatim>\<open>TypeError\<close>, and the query returns no rows at
  all, for \<open>ASC\<close> and for \<open>DESC\<close>.
\<close>

theorem order_by_mixed_column_raises_counterexample:
  "''shelf'' \<in> set (columns shelves_mixed)
   \<and> apply_order_by (q_by_shelf ''ASC'') shelves_mixed (records shelves_mixed) = Inl TypeError
   \<and> apply_order_by (q_by_shelf ''DESC'') shelves_mixed (records shelves_mixed) = Inl TypeError
   \<and> execute_query plain_fmt (q_by_shelf ''ASC'') shelves_mixed = Inl TypeError
   \<and> execute_query plain_fmt (q_by_shelf ''DESC'') shelves_mixed = Inl TypeError"
  by (simp add: q_by_shelf_def shelves_mixed_def stage_defs)











end
